theory Spec2Isabelle
  imports Main "HOL-Library.Sublist"
begin

section \<open>Values, dictionaries and registry objects\<close>

text \<open>
  The scalar Python values that travel between the queue service and the lock registry
  (JSON scalars; floating point numbers are left out).
\<close>

datatype pyval = PNone | PBool bool | PInt int | PStr string

text \<open>A dictionary keeps its items in order; \<open>dict.get\<close> gives \<open>None\<close> for a missing key.\<close>

type_synonym pydict = "(string \<times> pyval) list"

definition dict_get :: "pydict \<Rightarrow> string \<Rightarrow> pyval" where
  "dict_get d k = (case map_of d k of None \<Rightarrow> PNone | Some v \<Rightarrow> v)"

text \<open>Truth value of an object, as \<open>if x:\<close> tests it.\<close>

fun truthy :: "pyval \<Rightarrow> bool" where
  "truthy PNone = False"
| "truthy (PBool b) = b"
| "truthy (PInt i) = (i \<noteq> 0)"
| "truthy (PStr s) = (s \<noteq> [])"

text \<open>Decimal digits of a natural number, and \<open>str(x)\<close> as an f-string inserts it.\<close>

fun digits :: "nat \<Rightarrow> string" where
  "digits n = (if n < 10 then [char_of (48 + n)] else digits (n div 10) @ [char_of (48 + n mod 10)])"

declare digits.simps [simp del]

fun py_str :: "pyval \<Rightarrow> string" where
  "py_str PNone = ''None''"
| "py_str (PBool b) = (if b then ''True'' else ''False'')"
| "py_str (PInt i) = (if i < 0 then ''-'' @ digits (nat (- i)) else digits (nat i))"
| "py_str (PStr s) = s"

text \<open>
  A queue as the registry lists it (the keys the service reads with \<open>queue.get\<close>), and the
  in-memory \<open>Rqueue\<close> object that \<open>instantiate_pending_queue_objects\<close> builds from it with
  the keyword arguments \<open>id\<close>, \<open>priority\<close> and \<open>data\<close>. The attempt reads \<open>id\<close> and looks
  \<open>signoff\<close> and \<open>link\<close> up in the mapping \<open>data\<close>.
\<close>

record queue_json =
  q_id :: pyval
  q_priority :: pyval
  q_data :: pydict

record rqueue =
  rq_id :: pyval
  priority :: pyval
  data :: pydict

text \<open>One element of \<open>Rqueue.grouped_queues\<close>.\<close>

record group =
  group_type :: pyval
  group_name :: pyval
  queues :: "rqueue list"

text \<open>
  An HTTP response of the registry: the body text, and what \<open>json()\<close> decodes from it
  (\<open>None\<close> when the body is not a JSON object, in which case \<open>json()\<close> raises).
\<close>

record response =
  resp_text :: string
  resp_json :: "pydict option"

section \<open>Effects and errors\<close>

text \<open>
  Every call that leaves the service is logged: the requests to the registry, the heartbeat
  lookup, standard output, the start of a dispatch thread and \<open>sys.exit\<close>.
\<close>

datatype call =
    Get_queues string
  | Change_queue pyval pydict
  | Abort_queue pyval string
  | Get_lockable_resources pydict
  | Lock_resource pydict pyval pyval
  | Queue_has_beat pyval pyval
  | Print string
  | Print_dict pydict
  | Pprint "group list"
  | Thread_start string rqueue pydict
  | Sys_exit

datatype error =
    SystemExit "int option"
  | Exception string
  | IndexError
  | JSONDecodeError

text \<open>
  The exit status of the process when the error reaches the top of the main thread:
  \<open>sys.exit()\<close> without an argument exits with status zero, any other uncaught exception
  with status one.
\<close>

fun exit_status :: "error \<Rightarrow> int" where
  "exit_status (SystemExit None) = 0"
| "exit_status (SystemExit (Some n)) = n"
| "exit_status _ = 1"

text \<open>
  What the service calls outside \<open>queue_service.py\<close> is a parameter of the model: the
  constants of \<open>queue_service.constants\<close>, the configured \<open>QUEUE_BEAT_TIMEOUT\<close>, the methods
  of the registry connection \<open>rlocker\<close>, \<open>queue_has_beat\<close>, \<open>Rqueue.group_all\<close> (from the
  objects instantiated in the beat to \<open>Rqueue.grouped_queues\<close>) and the names of the threads
  that \<open>threading.enumerate\<close> reports. An answer may depend on the calls logged so far.
\<close>

record env =
  STATUS_PENDING :: string
  STATUS_FINISHED :: string
  STATUS_FAILED :: string
  QUEUE_BEAT_TIMEOUT :: pyval
  get_queues :: "call list \<Rightarrow> string \<Rightarrow> queue_json list"
  change_queue :: "call list \<Rightarrow> pyval \<Rightarrow> pydict \<Rightarrow> response"
  get_lockable_resources :: "call list \<Rightarrow> pydict \<Rightarrow> pydict list"
  lock_resource :: "call list \<Rightarrow> pydict \<Rightarrow> pyval \<Rightarrow> pyval \<Rightarrow> response"
  queue_has_beat :: "call list \<Rightarrow> pyval \<Rightarrow> pyval \<Rightarrow> bool"
  group_all :: "rqueue list \<Rightarrow> group list"
  alive_threads_names :: "call list \<Rightarrow> string list"

section \<open>The dispatch attempt\<close>

definition newline :: char where
  "newline = CHR 0x0A"

definition abort_msg :: "env \<Rightarrow> string" where
  "abort_msg e =
     ''This queue was an orphan queue! '' @ [newline] @
     ''There was no associated client, because queue was not beating '' @
     '' in the last '' @ py_str (QUEUE_BEAT_TIMEOUT e) @ '' seconds''"

text \<open>The call \<open>rlocker.lock_resource(next_resource, signoff=..., link=...)\<close> of an attempt.\<close>

definition lock_call :: "rqueue \<Rightarrow> pydict \<Rightarrow> call" where
  "lock_call next_queue next_resource =
     Lock_resource next_resource (dict_get (data next_queue) ''signoff'')
       (dict_get (data next_queue) ''link'')"

definition beat_call :: "env \<Rightarrow> rqueue \<Rightarrow> call" where
  "beat_call e next_queue = Queue_has_beat (rq_id next_queue) (QUEUE_BEAT_TIMEOUT e)"

definition attempt_lock :: "env \<Rightarrow> call list \<Rightarrow> rqueue \<Rightarrow> pydict \<Rightarrow> response" where
  "attempt_lock e tr next_queue next_resource =
     lock_resource e (tr @ [beat_call e next_queue]) next_resource
       (dict_get (data next_queue) ''signoff'') (dict_get (data next_queue) ''link'')"

text \<open>
  \<open>QueueService.queue_beat_check\<close>: the calls it makes, after those of \<open>tr\<close>, and how it ends.
\<close>

definition queue_beat_check ::
  "env \<Rightarrow> call list \<Rightarrow> rqueue \<Rightarrow> pydict \<Rightarrow> call list \<times> (error + unit)" where
  "queue_beat_check e tr next_queue next_resource =
     (if queue_has_beat e tr (rq_id next_queue) (QUEUE_BEAT_TIMEOUT e) then
        (case resp_json (attempt_lock e tr next_queue next_resource) of
           None \<Rightarrow>
             (tr @ [beat_call e next_queue, lock_call next_queue next_resource],
              Inl JSONDecodeError)
         | Some js \<Rightarrow>
             if truthy (dict_get js ''is_locked'') then
               (tr @ [beat_call e next_queue, lock_call next_queue next_resource, Print_dict js,
                  Change_queue (rq_id next_queue)
                    [(''status'', PStr (STATUS_FINISHED e)),
                     (''final_resource'', dict_get next_resource ''name'')]],
                Inr ())
             else
               (tr @ [beat_call e next_queue, lock_call next_queue next_resource, Print_dict js,
                  Change_queue (rq_id next_queue)
                    [(''status'', PStr (STATUS_FAILED e)),
                     (''description'',
                      PStr (take 2048 (resp_text (attempt_lock e tr next_queue next_resource))))]],
                Inr ()))
      else
        (tr @ [beat_call e next_queue, Abort_queue (rq_id next_queue) (abort_msg e)], Inr ()))"

text \<open>The calls that change the status of a queue entry, and the lock requests.\<close>

fun is_status_change :: "call \<Rightarrow> bool" where
  "is_status_change (Change_queue _ _) = True"
| "is_status_change (Abort_queue _ _) = True"
| "is_status_change _ = False"

fun is_lock_request :: "call \<Rightarrow> bool" where
  "is_lock_request (Lock_resource _ _ _) = True"
| "is_lock_request _ = False"

section \<open>Promotion of the initializing queues\<close>

definition exit_msg :: "env \<Rightarrow> pyval \<Rightarrow> string" where
  "exit_msg e queue_id =
     ''There was a problem changing queue with ID '' @ py_str queue_id @ '' to '' @
     STATUS_PENDING e @ ''! '' @ [newline] @ ''Unrecoverable error. Service Exiting...''"

text \<open>
  The \<open>else\<close> branch of the loop over the initializing queues, reached when no queue
  left the loop through \<open>sys.exit\<close>.
\<close>

definition promoted_msg :: "env \<Rightarrow> nat \<Rightarrow> string" where
  "promoted_msg e n =
     (if n > 0 then ''Service put all queues on '' @ STATUS_PENDING e @ '' successfully! '' @ [newline]
      else ''No queues to Initialize. '' @ [newline])"

definition report_pending :: "env \<Rightarrow> call list \<Rightarrow> nat \<Rightarrow> call list" where
  "report_pending e tr n =
     tr @ [Print (promoted_msg e n),
           Get_queues (STATUS_PENDING e),
           Print (''Total Queues that are '' @ STATUS_PENDING e @ '': '' @
                  py_str (PInt (int (length
                    (get_queues e (tr @ [Print (promoted_msg e n)]) (STATUS_PENDING e))))))]"

text \<open>
  The loop of \<open>QueueService.put_queues_on_pending\<close> over the queues still to promote;
  \<open>n\<close> is \<open>len(self.initializing_queues)\<close>.
\<close>

fun promote :: "env \<Rightarrow> nat \<Rightarrow> call list \<Rightarrow> queue_json list \<Rightarrow> call list \<times> (error + unit)" where
  "promote e n tr [] = (report_pending e tr n, Inr ())"
| "promote e n tr (queue # rest) =
     (case resp_json (change_queue e tr (q_id queue) [(''status'', PStr ''PENDING'')]) of
        None \<Rightarrow>
          (tr @ [Change_queue (q_id queue) [(''status'', PStr ''PENDING'')]], Inl JSONDecodeError)
      | Some js \<Rightarrow>
          if dict_get js ''status'' = PStr (STATUS_PENDING e) then
            promote e n (tr @ [Change_queue (q_id queue) [(''status'', PStr ''PENDING'')]]) rest
          else
            (tr @ [Change_queue (q_id queue) [(''status'', PStr ''PENDING'')],
                   Print (exit_msg e (q_id queue)), Sys_exit],
             Inl (SystemExit None)))"

definition put_queues_on_pending ::
  "env \<Rightarrow> call list \<Rightarrow> queue_json list \<Rightarrow> call list \<times> (error + unit)" where
  "put_queues_on_pending e tr initializing_queues =
     promote e (length initializing_queues) tr initializing_queues"

section \<open>The beat\<close>

definition instantiate_pending_queue_objects :: "queue_json list \<Rightarrow> rqueue list" where
  "instantiate_pending_queue_objects pending_queues =
     map (\<lambda>queue. \<lparr>rq_id = q_id queue, priority = q_priority queue, data = q_data queue\<rparr>)
       pending_queues"

text \<open>The keyword arguments of the query for free resources, by the type of the group.\<close>

definition resources_query :: "group \<Rightarrow> error + pydict" where
  "resources_query g =
     (if group_type g = PStr ''label'' then
        Inr [(''free_only'', PBool True), (''label_matches'', group_name g)]
      else if group_type g = PStr ''name'' then
        Inr [(''free_only'', PBool True), (''name'', group_name g)]
      else Inl (Exception ''Group type should be either name or label!''))"

definition thread_name :: "rqueue \<Rightarrow> string" where
  "thread_name next_queue = ''Thread-'' @ py_str (rq_id next_queue)"

text \<open>
  The body of the loop over \<open>Rqueue.grouped_queues\<close> in \<open>QueueService.run\<close>, for one group:
  the calls made, the group as \<open>pop(0)\<close> leaves it, and the outcome.
\<close>

definition run_group :: "env \<Rightarrow> call list \<Rightarrow> group \<Rightarrow> call list \<times> group \<times> (error + unit)" where
  "run_group e tr g =
     (case resources_query g of
        Inl err \<Rightarrow> (tr, g, Inl err)
      | Inr kwargs \<Rightarrow>
          (case get_lockable_resources e tr kwargs of
             [] \<Rightarrow> (tr @ [Get_lockable_resources kwargs], g, Inr ())
           | next_resource # _ \<Rightarrow>
               (case queues g of
                  [] \<Rightarrow> (tr @ [Get_lockable_resources kwargs], g, Inl IndexError)
                | next_queue # group_queues \<Rightarrow>
                    if thread_name next_queue
                         \<in> set (alive_threads_names e (tr @ [Get_lockable_resources kwargs]))
                    then (tr @ [Get_lockable_resources kwargs], g\<lparr>queues := group_queues\<rparr>, Inr ())
                    else (tr @ [Get_lockable_resources kwargs,
                                Thread_start (thread_name next_queue) next_queue next_resource],
                          g\<lparr>queues := group_queues\<rparr>, Inr ()))))"

fun run_groups :: "env \<Rightarrow> call list \<Rightarrow> group list \<Rightarrow> call list \<times> group list \<times> (error + unit)" where
  "run_groups e tr [] = (tr, [], Inr ())"
| "run_groups e tr (g # gs) =
     (case run_group e tr g of
        (tr', g', Inl err) \<Rightarrow> (tr', g' # gs, Inl err)
      | (tr', g', Inr _) \<Rightarrow>
          (case run_groups e tr' gs of (tr'', gs', out) \<Rightarrow> (tr'', g' # gs', out)))"

text \<open>
  \<open>QueueService.run\<close>, one beat: promotion, the pending queues, grouping, and the loop
  over the groups. \<open>initializing_queues\<close> is the list the constructor fetched.
\<close>

definition run :: "env \<Rightarrow> call list \<Rightarrow> queue_json list \<Rightarrow> call list \<times> group list \<times> (error + unit)" where
  "run e tr initializing_queues =
     (case put_queues_on_pending e tr initializing_queues of
        (tr1, Inl err) \<Rightarrow> (tr1, [], Inl err)
      | (tr1, Inr _) \<Rightarrow>
          run_groups e
            (tr1 @ [Get_queues (STATUS_PENDING e),
                    Pprint (group_all e (instantiate_pending_queue_objects
                               (get_queues e tr1 (STATUS_PENDING e))))])
            (group_all e (instantiate_pending_queue_objects (get_queues e tr1 (STATUS_PENDING e)))))"

text \<open>The dispatches of a log: the (entry, resource) pairs handed to a dispatch thread.\<close>

fun dispatches :: "call list \<Rightarrow> (rqueue \<times> pydict) list" where
  "dispatches [] = []"
| "dispatches (Thread_start _ q r # cs) = (q, r) # dispatches cs"
| "dispatches (_ # cs) = dispatches cs"

text \<open>The calls of one dispatch attempt: what \<open>queue_beat_check\<close> adds to the log.\<close>

definition attempt_calls :: "env \<Rightarrow> call list \<Rightarrow> rqueue \<Rightarrow> pydict \<Rightarrow> call list" where
  "attempt_calls e tr next_queue next_resource =
     drop (length tr) (fst (queue_beat_check e tr next_queue next_resource))"

text \<open>The description stored by the status change of a log, if there is one.\<close>

fun stored_description :: "call list \<Rightarrow> pyval option" where
  "stored_description [] = None"
| "stored_description (Change_queue _ kwargs # cs) = map_of kwargs ''description''"
| "stored_description (_ # cs) = stored_description cs"

text \<open>The promotion request for a queue, and the check \<open>is_queue_changed\<close> on its answer.\<close>

definition pending_call :: "queue_json \<Rightarrow> call" where
  "pending_call queue = Change_queue (q_id queue) [(''status'', PStr ''PENDING'')]"

definition is_queue_changed :: "env \<Rightarrow> call list \<Rightarrow> queue_json \<Rightarrow> bool" where
  "is_queue_changed e tr queue =
     (case resp_json (change_queue e tr (q_id queue) [(''status'', PStr ''PENDING'')]) of
        None \<Rightarrow> False
      | Some js \<Rightarrow> dict_get js ''status'' = PStr (STATUS_PENDING e))"

fun all_changed :: "env \<Rightarrow> call list \<Rightarrow> queue_json list \<Rightarrow> bool" where
  "all_changed e tr [] = True"
| "all_changed e tr (queue # rest) =
     (is_queue_changed e tr queue \<and> all_changed e (tr @ [pending_call queue]) rest)"

text \<open>
  The calls of the loop body for one group, and of the whole loop over the groups: what
  \<open>run_group\<close> and \<open>run_groups\<close> add to the log.
\<close>

definition group_calls :: "env \<Rightarrow> call list \<Rightarrow> group \<Rightarrow> call list" where
  "group_calls e tr g = drop (length tr) (fst (run_group e tr g))"

definition loop_calls :: "env \<Rightarrow> call list \<Rightarrow> group list \<Rightarrow> call list" where
  "loop_calls e tr gs = drop (length tr) (fst (run_groups e tr gs))"


section \<open>Example registries\<close>

definition pool_A :: pydict where
  "pool_A = [(''name'', PStr ''pool-A'')]"

definition E1 :: rqueue where
  "E1 = \<lparr>rq_id = PInt 1, priority = PInt 0,
          data = [(''signoff'', PStr ''alice''), (''link'', PStr ''http://ci/job/7'')]\<rparr>"

definition granted :: response where
  \<open>granted = \<lparr>resp_text = ''{"is_locked": true}'', resp_json = Some [(''is_locked'', PBool True)]\<rparr>\<close>

definition denied :: response where
  \<open>denied = \<lparr>resp_text = ''{"is_locked": false, "detail": "busy"}'',
              resp_json = Some [(''is_locked'', PBool False), (''detail'', PStr ''busy'')]\<rparr>\<close>

definition long_denial :: response where
  "long_denial =
     \<lparr>resp_text = replicate 3000 (CHR ''x''), resp_json = Some [(''is_locked'', PBool False)]\<rparr>"

text \<open>
  A registry with one free resource, no queues, no alive dispatch thread, a fixed heartbeat
  answer and a fixed answer to lock requests; it confirms every status change.
\<close>

definition registry :: "bool \<Rightarrow> response \<Rightarrow> env" where
  "registry beating answer =
     \<lparr>STATUS_PENDING = ''PENDING'', STATUS_FINISHED = ''FINISHED'', STATUS_FAILED = ''FAILED'',
      QUEUE_BEAT_TIMEOUT = PInt 30,
      get_queues = (\<lambda>_ _. []),
      change_queue = (\<lambda>_ _ kwargs. \<lparr>resp_text = [], resp_json = Some kwargs\<rparr>),
      get_lockable_resources = (\<lambda>_ _. [pool_A]),
      lock_resource = (\<lambda>_ _ _ _. answer),
      queue_has_beat = (\<lambda>_ _ _. beating),
      group_all = (\<lambda>_. []),
      alive_threads_names = (\<lambda>_. [])\<rparr>"

definition Q7 :: queue_json where
  "Q7 = \<lparr>q_id = PInt 7, q_priority = PInt 0, q_data = []\<rparr>"

definition Q8 :: queue_json where
  "Q8 = \<lparr>q_id = PInt 8, q_priority = PInt 0, q_data = []\<rparr>"

text \<open>A registry that confirms every promotion but that of queue 7.\<close>

definition stuck_registry :: env where
  "stuck_registry =
     (registry True granted)
       \<lparr>change_queue := (\<lambda>_ queue_id kwargs.
          if queue_id = PInt 7
          then \<lparr>resp_text = [], resp_json = Some [(''status'', PStr ''INITIALIZING'')]\<rparr>
          else \<lparr>resp_text = [], resp_json = Some kwargs\<rparr>)\<rparr>"

text \<open>More entries, three groups, and the queues as the registry lists them.\<close>

definition E2 :: rqueue where
  "E2 = \<lparr>rq_id = PInt 2, priority = PInt 0,
          data = [(''signoff'', PStr ''bob''), (''link'', PStr ''http://ci/job/8'')]\<rparr>"

definition E3 :: rqueue where
  "E3 = \<lparr>rq_id = PInt 3, priority = PInt 0,
          data = [(''signoff'', PStr ''carol''), (''link'', PStr ''http://ci/job/9'')]\<rparr>"

definition G_pool :: group where
  "G_pool = \<lparr>group_type = PStr ''name'', group_name = PStr ''pool-A'', queues = [E1, E2]\<rparr>"

definition G_region :: group where
  "G_region = \<lparr>group_type = PStr ''region'', group_name = PStr ''eu'', queues = [E3]\<rparr>"

definition G_label :: group where
  "G_label = \<lparr>group_type = PStr ''label'', group_name = PStr ''gpu'', queues = [E3]\<rparr>"

definition listed :: "rqueue \<Rightarrow> queue_json" where
  "listed q = \<lparr>q_id = rq_id q, q_priority = priority q, q_data = data q\<rparr>"

text \<open>
  A registry with three pending queues that are grouped by name \<open>pool-A\<close> and by the
  unknown selector type \<open>region\<close>; one where \<open>pool-A\<close> is taken; one where the dispatch
  thread of entry 1 is still alive; one with two free resources.
\<close>

definition region_registry :: env where
  "region_registry =
     (registry True granted)
       \<lparr>get_queues := (\<lambda>_ _. [listed E1, listed E2, listed E3]), group_all := (\<lambda>_. [G_pool, G_region])\<rparr>"

definition empty_registry :: env where
  "empty_registry = (registry True granted)
      \<lparr>get_lockable_resources := (\<lambda>_ kwargs. if dict_get kwargs ''name'' = PStr ''pool-A'' then [] else [pool_A])\<rparr>"

definition busy_registry :: env where
  "busy_registry = (registry True granted)\<lparr>alive_threads_names := (\<lambda>_. [''MainThread'', ''Thread-1''])\<rparr>"

definition two_free :: env where
  "two_free = (registry True granted)\<lparr>get_lockable_resources := (\<lambda>_ _. [pool_A, [(''name'', PStr ''pool-B'')]])\<rparr>"



section \<open>The dispatch attempt: outcomes\<close>

lemma attempt_calls_granted:
  assumes "queue_has_beat e tr (rq_id next_queue) (QUEUE_BEAT_TIMEOUT e)"
    and "resp_json (attempt_lock e tr next_queue next_resource) = Some js"
    and "truthy (dict_get js ''is_locked'')"
  shows "attempt_calls e tr next_queue next_resource =
           [beat_call e next_queue, lock_call next_queue next_resource, Print_dict js,
            Change_queue (rq_id next_queue)
              [(''status'', PStr (STATUS_FINISHED e)),
               (''final_resource'', dict_get next_resource ''name'')]]"
  using assms by (simp add: attempt_calls_def queue_beat_check_def)

lemma attempt_calls_denied:
  assumes "queue_has_beat e tr (rq_id next_queue) (QUEUE_BEAT_TIMEOUT e)"
    and "resp_json (attempt_lock e tr next_queue next_resource) = Some js"
    and "\<not> truthy (dict_get js ''is_locked'')"
  shows "attempt_calls e tr next_queue next_resource =
           [beat_call e next_queue, lock_call next_queue next_resource, Print_dict js,
            Change_queue (rq_id next_queue)
              [(''status'', PStr (STATUS_FAILED e)),
               (''description'',
                PStr (take 2048 (resp_text (attempt_lock e tr next_queue next_resource))))]]"
  using assms by (simp add: attempt_calls_def queue_beat_check_def)

lemma attempt_calls_orphan:
  assumes "\<not> queue_has_beat e tr (rq_id next_queue) (QUEUE_BEAT_TIMEOUT e)"
  shows "attempt_calls e tr next_queue next_resource =
           [beat_call e next_queue, Abort_queue (rq_id next_queue) (abort_msg e)]"
  using assms by (simp add: attempt_calls_def queue_beat_check_def)

text \<open>
  Claim C1. When the heartbeat check passes and the answer to the lock request has a true
  \<open>is_locked\<close>, the attempt makes exactly one status-changing call: it sets the entry to
  \<open>FINISHED\<close> with \<open>final_resource\<close> the name of the resource it was handed.
\<close>

theorem lock_success_finishes:
  assumes "queue_has_beat e tr (rq_id next_queue) (QUEUE_BEAT_TIMEOUT e)"
    and "resp_json (attempt_lock e tr next_queue next_resource) = Some js"
    and "truthy (dict_get js ''is_locked'')"
  shows "filter is_status_change (attempt_calls e tr next_queue next_resource) =
           [Change_queue (rq_id next_queue)
              [(''status'', PStr (STATUS_FINISHED e)),
               (''final_resource'', dict_get next_resource ''name'')]]"
  by (simp add: attempt_calls_granted [OF assms] beat_call_def lock_call_def)

text \<open>The scenario of the specification: entry 1, resource \<open>pool-A\<close>, a fresh heartbeat.\<close>

theorem lock_success_finishes_witness:
  "filter is_status_change (attempt_calls (registry True granted) [] E1 pool_A) =
     [Change_queue (PInt 1) [(''status'', PStr ''FINISHED''), (''final_resource'', PStr ''pool-A'')]]"
proof -
  have beat: "queue_has_beat (registry True granted) [] (rq_id E1)
                (QUEUE_BEAT_TIMEOUT (registry True granted))"
    by (simp add: registry_def)
  have js: "resp_json (attempt_lock (registry True granted) [] E1 pool_A)
              = Some [(''is_locked'', PBool True)]"
    by (simp add: attempt_lock_def registry_def granted_def)
  have locked: "truthy (dict_get [(''is_locked'', PBool True)] ''is_locked'')"
    by (simp add: dict_get_def)
  show ?thesis
    using lock_success_finishes [OF beat js locked]
    by (simp add: registry_def E1_def pool_A_def dict_get_def)
qed

text \<open>
  Claim C2. When the heartbeat check fails, the attempt aborts the entry with a reason
  that contains the word \<open>orphan\<close>, and sends no lock request.
\<close>

theorem orphan_is_aborted:
  assumes "\<not> queue_has_beat e tr (rq_id next_queue) (QUEUE_BEAT_TIMEOUT e)"
  shows "filter is_status_change (attempt_calls e tr next_queue next_resource) =
           [Abort_queue (rq_id next_queue) (abort_msg e)]
         \<and> sublist ''orphan'' (abort_msg e)
         \<and> filter is_lock_request (attempt_calls e tr next_queue next_resource) = []"
proof -
  have "abort_msg e = ''This queue was an '' @ ''orphan'' @
          ('' queue! '' @ [newline] @
           ''There was no associated client, because queue was not beating '' @
           '' in the last '' @ py_str (QUEUE_BEAT_TIMEOUT e) @ '' seconds'')"
    by (simp add: abort_msg_def)
  then have "sublist ''orphan'' (abort_msg e)"
    by (simp only: sublist_appendI)
  then show ?thesis
    by (simp add: attempt_calls_orphan [OF assms] beat_call_def)
qed

theorem orphan_is_aborted_witness:
  "filter is_status_change (attempt_calls (registry False granted) [] E1 pool_A) =
     [Abort_queue (PInt 1) (''This queue was an orphan queue! '' @ [newline] @
         ''There was no associated client, because queue was not beating  in the last 30 seconds'')]
   \<and> sublist ''orphan'' (abort_msg (registry False granted))
   \<and> filter is_lock_request (attempt_calls (registry False granted) [] E1 pool_A) = []"
proof -
  have beat: "\<not> queue_has_beat (registry False granted) [] (rq_id E1)
                (QUEUE_BEAT_TIMEOUT (registry False granted))"
    by (simp add: registry_def)
  have thirty: "digits 30 = ''30''"
    by code_simp
  have msg: "abort_msg (registry False granted) = ''This queue was an orphan queue! '' @ [newline] @
         ''There was no associated client, because queue was not beating  in the last 30 seconds''"
    by (simp add: abort_msg_def registry_def thirty)
  show ?thesis
    using orphan_is_aborted [OF beat, of pool_A]
    by (simp add: msg E1_def)
qed

text \<open>
  Claim C4 as stated fails: the description is not the \<open>detail\<close> field of the answer. With
  the answer \<open>{"is_locked": false, "detail": "busy"}\<close> the entry is set to \<open>FAILED\<close> with the
  whole body text as its description.
\<close>

theorem lock_denied_description_counterexample:
  \<open>resp_json (attempt_lock (registry True denied) [] E1 pool_A)
      = Some [(''is_locked'', PBool False), (''detail'', PStr ''busy'')]
   \<and> filter is_status_change (attempt_calls (registry True denied) [] E1 pool_A)
      = [Change_queue (PInt 1)
           [(''status'', PStr ''FAILED''),
            (''description'', PStr ''{"is_locked": false, "detail": "busy"}'')]]
   \<and> PStr ''{"is_locked": false, "detail": "busy"}'' \<noteq> PStr ''busy''\<close>
  by (simp add: attempt_calls_def queue_beat_check_def attempt_lock_def registry_def denied_def
      E1_def dict_get_def beat_call_def lock_call_def)

text \<open>
  Claim C4, amended. When the heartbeat check passes and the answer to the lock request has
  a false \<open>is_locked\<close>, the attempt makes exactly one status-changing call: it sets the entry
  to \<open>FAILED\<close> with a description equal to the first 2048 characters of the body text of
  the answer.
\<close>

theorem lock_denied_fails_with_body_text:
  assumes "queue_has_beat e tr (rq_id next_queue) (QUEUE_BEAT_TIMEOUT e)"
    and "resp_json (attempt_lock e tr next_queue next_resource) = Some js"
    and "\<not> truthy (dict_get js ''is_locked'')"
  shows "filter is_status_change (attempt_calls e tr next_queue next_resource) =
           [Change_queue (rq_id next_queue)
              [(''status'', PStr (STATUS_FAILED e)),
               (''description'',
                PStr (take 2048 (resp_text (attempt_lock e tr next_queue next_resource))))]]"
  by (simp add: attempt_calls_denied [OF assms] beat_call_def lock_call_def)

theorem lock_denied_fails_with_body_text_witness:
  \<open>filter is_status_change (attempt_calls (registry True denied) [] E1 pool_A) =
     [Change_queue (PInt 1)
        [(''status'', PStr ''FAILED''),
         (''description'', PStr ''{"is_locked": false, "detail": "busy"}'')]]\<close>
proof -
  have beat: "queue_has_beat (registry True denied) [] (rq_id E1)
                (QUEUE_BEAT_TIMEOUT (registry True denied))"
    by (simp add: registry_def)
  have js: "resp_json (attempt_lock (registry True denied) [] E1 pool_A)
              = Some [(''is_locked'', PBool False), (''detail'', PStr ''busy'')]"
    by (simp add: attempt_lock_def registry_def denied_def)
  have unlocked:
    "\<not> truthy (dict_get [(''is_locked'', PBool False), (''detail'', PStr ''busy'')] ''is_locked'')"
    by (simp add: dict_get_def)
  show ?thesis
    using lock_denied_fails_with_body_text [OF beat js unlocked]
    by (simp add: registry_def E1_def attempt_lock_def denied_def)
qed

text \<open>
  Claim C8. On a denied lock the description stored on the \<open>FAILED\<close> entry is the denial
  text cut to 2048 characters: exactly 2048 characters long when the text is longer, and
  the text itself when it has 2048 characters or fewer.
\<close>

theorem description_truncated:
  assumes "queue_has_beat e tr (rq_id next_queue) (QUEUE_BEAT_TIMEOUT e)"
    and "resp_json (attempt_lock e tr next_queue next_resource) = Some js"
    and "\<not> truthy (dict_get js ''is_locked'')"
  shows "stored_description (attempt_calls e tr next_queue next_resource)
           = Some (PStr (take 2048 (resp_text (attempt_lock e tr next_queue next_resource))))
         \<and> (length (resp_text (attempt_lock e tr next_queue next_resource)) > 2048
              \<longrightarrow> length (take 2048 (resp_text (attempt_lock e tr next_queue next_resource))) = 2048)
         \<and> (length (resp_text (attempt_lock e tr next_queue next_resource)) \<le> 2048
              \<longrightarrow> take 2048 (resp_text (attempt_lock e tr next_queue next_resource))
                    = resp_text (attempt_lock e tr next_queue next_resource))"
  by (simp add: attempt_calls_denied [OF assms] beat_call_def lock_call_def)

theorem description_truncated_witness:
  "stored_description (attempt_calls (registry True long_denial) [] E1 pool_A)
     = Some (PStr (replicate 2048 (CHR ''x'')))
   \<and> length (replicate 2048 (CHR ''x'')) = 2048
   \<and> length (resp_text long_denial) = 3000"
proof -
  have beat: "queue_has_beat (registry True long_denial) [] (rq_id E1)
                (QUEUE_BEAT_TIMEOUT (registry True long_denial))"
    by (simp add: registry_def)
  have js: "resp_json (attempt_lock (registry True long_denial) [] E1 pool_A)
              = Some [(''is_locked'', PBool False)]"
    by (simp add: attempt_lock_def registry_def long_denial_def)
  have unlocked: "\<not> truthy (dict_get [(''is_locked'', PBool False)] ''is_locked'')"
    by (simp add: dict_get_def)
  have body: "resp_text (attempt_lock (registry True long_denial) [] E1 pool_A)
                = replicate 3000 (CHR ''x'')"
    by (simp add: attempt_lock_def registry_def long_denial_def)
  have len: "length (resp_text long_denial) = 3000"
    by (simp add: long_denial_def)
  show ?thesis
    using description_truncated [OF beat js unlocked]
    by (simp add: body len)
qed

section \<open>Promotion: the unconfirmed transition\<close>

lemma promote_stops:
  assumes "all_changed e tr before"
    and "resp_json (change_queue e (tr @ map pending_call before) (q_id queue)
           [(''status'', PStr ''PENDING'')]) = Some js"
    and "dict_get js ''status'' \<noteq> PStr (STATUS_PENDING e)"
  shows "promote e n tr (before @ queue # rest) =
           (tr @ map pending_call before @
              [pending_call queue, Print (exit_msg e (q_id queue)), Sys_exit],
            Inl (SystemExit None))"
  using assms
proof (induction before arbitrary: tr)
  case Nil
  then show ?case by (simp add: pending_call_def)
next
  case (Cons a as)
  from Cons.prems(1) have a: "is_queue_changed e tr a"
    and as: "all_changed e (tr @ [pending_call a]) as" by simp_all
  from a obtain ja
    where ja: "resp_json (change_queue e tr (q_id a) [(''status'', PStr ''PENDING'')]) = Some ja"
      "dict_get ja ''status'' = PStr (STATUS_PENDING e)"
    by (auto simp: is_queue_changed_def split: option.splits)
  have "promote e n (tr @ [pending_call a]) (as @ queue # rest) =
          ((tr @ [pending_call a]) @ map pending_call as @
             [pending_call queue, Print (exit_msg e (q_id queue)), Sys_exit],
           Inl (SystemExit None))"
    using Cons.IH [OF as] Cons.prems(2,3) by simp
  then show ?case using ja by (simp add: pending_call_def)
qed

text \<open>
  Claim C3 as stated fails: the exit is \<open>sys.exit()\<close> without an argument, whose exit status
  is zero. Queue 7 is not confirmed here.
\<close>

theorem unconfirmed_promotion_status_counterexample:
  "put_queues_on_pending stuck_registry [] [Q8, Q7, Q8] =
     ([Change_queue (PInt 8) [(''status'', PStr ''PENDING'')],
       Change_queue (PInt 7) [(''status'', PStr ''PENDING'')],
       Print (exit_msg stuck_registry (PInt 7)), Sys_exit],
      Inl (SystemExit None))
   \<and> exit_status (SystemExit None) = 0"
  by (simp add: put_queues_on_pending_def stuck_registry_def registry_def Q7_def Q8_def
      dict_get_def)

text \<open>
  Claim C3, amended. If the queues before an entry are confirmed as \<open>PENDING\<close> and the
  answer for that entry has another status, the promotion stops at it: after the request it
  prints a message that names the entry id and leaves through \<open>sys.exit()\<close> without an
  exit code, which is exit status zero; no later entry is promoted.
\<close>

theorem unconfirmed_promotion_exits:
  assumes "all_changed e tr before"
    and "resp_json (change_queue e (tr @ map pending_call before) (q_id queue)
           [(''status'', PStr ''PENDING'')]) = Some js"
    and "dict_get js ''status'' \<noteq> PStr (STATUS_PENDING e)"
  shows "put_queues_on_pending e tr (before @ queue # rest) =
           (tr @ map pending_call before @
              [pending_call queue, Print (exit_msg e (q_id queue)), Sys_exit],
            Inl (SystemExit None))
         \<and> sublist (py_str (q_id queue)) (exit_msg e (q_id queue))
         \<and> exit_status (SystemExit None) = 0"
proof -
  have "sublist (py_str (q_id queue))
          (''There was a problem changing queue with ID '' @ py_str (q_id queue) @
           ('' to '' @ STATUS_PENDING e @ ''! '' @ [newline] @
            ''Unrecoverable error. Service Exiting...''))"
    by (rule sublist_appendI)
  then have "sublist (py_str (q_id queue)) (exit_msg e (q_id queue))"
    by (simp add: exit_msg_def)
  then show ?thesis
    using promote_stops [OF assms] by (simp add: put_queues_on_pending_def)
qed

theorem unconfirmed_promotion_exits_witness:
  "put_queues_on_pending stuck_registry [] ([Q8] @ Q7 # [Q8]) =
     ([Change_queue (PInt 8) [(''status'', PStr ''PENDING'')],
       Change_queue (PInt 7) [(''status'', PStr ''PENDING'')],
       Print (''There was a problem changing queue with ID 7 to PENDING! '' @ [newline] @
              ''Unrecoverable error. Service Exiting...''),
       Sys_exit],
      Inl (SystemExit None))
   \<and> sublist ''7'' (exit_msg stuck_registry (PInt 7))"
proof -
  have changed: "all_changed stuck_registry [] [Q8]"
    by (simp add: stuck_registry_def registry_def Q8_def is_queue_changed_def dict_get_def)
  have js: "resp_json (change_queue stuck_registry ([] @ map pending_call [Q8]) (q_id Q7)
              [(''status'', PStr ''PENDING'')]) = Some [(''status'', PStr ''INITIALIZING'')]"
    by (simp add: stuck_registry_def Q7_def)
  have no: "dict_get [(''status'', PStr ''INITIALIZING'')] ''status''
              \<noteq> PStr (STATUS_PENDING stuck_registry)"
    by (simp add: dict_get_def stuck_registry_def registry_def)
  have seven: "digits 7 = ''7''"
    by code_simp
  have msg: "exit_msg stuck_registry (PInt 7) =
      ''There was a problem changing queue with ID 7 to PENDING! '' @ [newline] @
              ''Unrecoverable error. Service Exiting...''"
    by (simp add: exit_msg_def seven stuck_registry_def registry_def)
  show ?thesis
    using unconfirmed_promotion_exits [OF changed js no, of "[Q8]"]
    by (simp add: msg Q7_def Q8_def pending_call_def seven)
qed

section \<open>The loop over the groups\<close>

lemma run_group_empty:
  assumes "resources_query g = Inr kwargs" and "get_lockable_resources e tr kwargs = []"
  shows "run_group e tr g = (tr @ [Get_lockable_resources kwargs], g, Inr ())"
  using assms by (simp add: run_group_def)

lemma run_group_alive:
  assumes "resources_query g = Inr kwargs"
    and "get_lockable_resources e tr kwargs = next_resource # resources"
    and "queues g = next_queue # group_queues"
    and "thread_name next_queue \<in> set (alive_threads_names e (tr @ [Get_lockable_resources kwargs]))"
  shows "run_group e tr g = (tr @ [Get_lockable_resources kwargs], g\<lparr>queues := group_queues\<rparr>, Inr ())"
  using assms by (simp add: run_group_def)

lemma run_group_bad_type:
  assumes "group_type g \<noteq> PStr ''label''" and "group_type g \<noteq> PStr ''name''"
  shows "run_group e tr g = (tr, g, Inl (Exception ''Group type should be either name or label!''))"
  using assms by (simp add: run_group_def resources_query_def)

lemma run_groups_append:
  assumes "run_groups e tr before = (tr', before', Inr ())"
  shows "run_groups e tr (before @ rest) =
           (case run_groups e tr' rest of (tr'', rest', out) \<Rightarrow> (tr'', before' @ rest', out))"
  using assms
proof (induction before arbitrary: tr before')
  case Nil
  then show ?case by (auto split: prod.splits)
next
  case (Cons g gs)
  then show ?case
    by (auto split: prod.splits sum.splits)
qed

lemma group_dispatches:
  "dispatches (group_calls e tr g) = []
   \<or> (\<exists>kwargs next_resource resources next_queue group_queues.
         resources_query g = Inr kwargs
         \<and> get_lockable_resources e tr kwargs = next_resource # resources
         \<and> queues g = next_queue # group_queues
         \<and> dispatches (group_calls e tr g) = [(next_queue, next_resource)])"
  by (auto simp: group_calls_def run_group_def split: sum.splits list.splits)

lemma dispatches_append: "dispatches (xs @ ys) = dispatches xs @ dispatches ys"
  by (induction xs rule: dispatches.induct) simp_all

lemma run_group_extends: "fst (run_group e tr g) = tr @ group_calls e tr g"
  by (auto simp: group_calls_def run_group_def split: sum.splits list.splits)

lemma fst_run_groups_Cons:
  "fst (run_groups e tr (g # gs)) =
     (case snd (snd (run_group e tr g)) of
        Inl _ \<Rightarrow> fst (run_group e tr g)
      | Inr _ \<Rightarrow> fst (run_groups e (fst (run_group e tr g)) gs))"
  by (simp split: prod.splits sum.splits)

lemma run_groups_extends: "fst (run_groups e tr gs) = tr @ loop_calls e tr gs"
proof (induction gs arbitrary: tr)
  case Nil
  then show ?case by (simp add: loop_calls_def)
next
  case (Cons g gs)
  have "\<exists>new. fst (run_groups e tr (g # gs)) = tr @ new"
  proof (cases "snd (snd (run_group e tr g))")
    case (Inl err)
    then have "fst (run_groups e tr (g # gs)) = tr @ group_calls e tr g"
      by (simp only: fst_run_groups_Cons sum.case run_group_extends)
    then show ?thesis by blast
  next
    case (Inr u)
    then have "fst (run_groups e tr (g # gs)) = fst (run_groups e (tr @ group_calls e tr g) gs)"
      by (simp only: fst_run_groups_Cons sum.case run_group_extends)
    also have "\<dots> = (tr @ group_calls e tr g) @ loop_calls e (tr @ group_calls e tr g) gs"
      by (rule Cons.IH)
    finally show ?thesis by simp
  qed
  then obtain new where "fst (run_groups e tr (g # gs)) = tr @ new" ..
  then show ?case by (simp add: loop_calls_def)
qed

lemma loop_calls_Cons:
  "loop_calls e tr (g # gs) =
     group_calls e tr g @
     (case snd (snd (run_group e tr g)) of
        Inl _ \<Rightarrow> []
      | Inr _ \<Rightarrow> loop_calls e (tr @ group_calls e tr g) gs)"
proof (cases "snd (snd (run_group e tr g))")
  case (Inl err)
  then have "fst (run_groups e tr (g # gs)) = tr @ group_calls e tr g"
    by (simp only: fst_run_groups_Cons sum.case run_group_extends)
  then show ?thesis using Inl by (simp add: loop_calls_def)
next
  case (Inr u)
  then have "fst (run_groups e tr (g # gs)) = fst (run_groups e (tr @ group_calls e tr g) gs)"
    by (simp only: fst_run_groups_Cons sum.case run_group_extends)
  also have "\<dots> = (tr @ group_calls e tr g) @ loop_calls e (tr @ group_calls e tr g) gs"
    by (rule run_groups_extends)
  finally have "loop_calls e tr (g # gs) =
      group_calls e tr g @ loop_calls e (tr @ group_calls e tr g) gs"
    by (simp add: loop_calls_def)
  then show ?thesis using Inr by simp
qed

lemma length_group_dispatches: "length (dispatches (group_calls e tr g)) \<le> 1"
  using group_dispatches [of e tr g] by auto

lemma length_loop_dispatches: "length (dispatches (loop_calls e tr gs)) \<le> length gs"
proof (induction gs arbitrary: tr)
  case Nil
  then show ?case by (simp add: loop_calls_def)
next
  case (Cons g gs)
  show ?case
    using length_group_dispatches [of e tr g] Cons.IH [of "tr @ group_calls e tr g"]
    by (auto simp: loop_calls_Cons dispatches_append split: sum.splits)
qed


text \<open>
  Claim C5. For every group the loop body hands at most one (entry, resource) pair to a
  dispatch thread, and a pair it hands over is the first member of the group with the first
  free resource the registry returned, however many members and free resources there are;
  over a beat there are no more pairs than groups.
\<close>

theorem one_pair_per_group:
  "(dispatches (group_calls e tr g) = []
    \<or> (\<exists>kwargs next_resource resources next_queue group_queues.
          resources_query g = Inr kwargs
          \<and> get_lockable_resources e tr kwargs = next_resource # resources
          \<and> queues g = next_queue # group_queues
          \<and> dispatches (group_calls e tr g) = [(next_queue, next_resource)]))
   \<and> length (dispatches (loop_calls e tr gs)) \<le> length gs"
  using group_dispatches [of e tr g] length_loop_dispatches [of e tr gs] by blast

theorem one_pair_per_group_witness:
  "dispatches (group_calls two_free [] G_pool) = [(E1, pool_A)]
   \<and> length (dispatches (loop_calls two_free [] [G_pool])) \<le> 1"
proof -
  have "dispatches (group_calls two_free [] G_pool) = [(E1, pool_A)]"
    by (simp add: group_calls_def run_group_def resources_query_def two_free_def registry_def
        G_pool_def)
  then show ?thesis
    using one_pair_per_group [of two_free "[]" G_pool "[G_pool]"] by simp
qed

text \<open>
  Claim C6 as stated fails: a group of an unknown type that is not the first one is reached
  only after the groups before it were dispatched. Here entry 1 is dispatched before the
  group of type \<open>region\<close> raises.
\<close>

theorem bad_type_after_dispatch_counterexample:
  "group_type G_region = PStr ''region''
   \<and> snd (snd (run region_registry [] [])) = Inl (Exception ''Group type should be either name or label!'')
   \<and> dispatches (fst (run region_registry [] [])) = [(E1, pool_A)]"
  by (simp add: run_def put_queues_on_pending_def report_pending_def region_registry_def
      registry_def run_group_def resources_query_def G_pool_def G_region_def thread_name_def)

text \<open>
  Claim C6, amended. When the groups before it are processed without error, a group whose
  type is neither \<open>name\<close> nor \<open>label\<close> raises the exception at its turn: the log is the one
  the groups before it left, so that no query for free resources is made for the group,
  neither it nor a later group is queried, dequeued or dispatched, and the dispatches of the
  beat are those of the groups before it.
\<close>

theorem bad_group_type_raises:
  assumes "group_type g \<noteq> PStr ''label''" and "group_type g \<noteq> PStr ''name''"
    and "run_groups e tr before = (tr', before', Inr ())"
  shows "run_groups e tr (before @ g # after) =
           (tr', before' @ g # after, Inl (Exception ''Group type should be either name or label!''))
         \<and> dispatches (loop_calls e tr (before @ g # after)) = dispatches (loop_calls e tr before)"
proof -
  have raised: "run_groups e tr (before @ g # after) =
      (tr', before' @ g # after, Inl (Exception ''Group type should be either name or label!''))"
    using run_groups_append [OF assms(3), of "g # after"]
      run_group_bad_type [OF assms(1,2), of e tr']
    by simp
  have "loop_calls e tr (before @ g # after) = loop_calls e tr before"
    by (simp only: loop_calls_def raised assms(3) fst_conv)
  then show ?thesis using raised by simp
qed

theorem bad_group_type_raises_witness:
  "run_groups (registry True granted) [] ([G_pool] @ G_region # [G_label]) =
     ([Get_lockable_resources [(''free_only'', PBool True), (''name'', PStr ''pool-A'')],
       Thread_start ''Thread-1'' E1 pool_A],
      [G_pool\<lparr>queues := [E2]\<rparr>] @ G_region # [G_label],
      Inl (Exception ''Group type should be either name or label!''))"
proof -
  have one: "digits (Suc 0) = ''1''" by code_simp
  have a: "group_type G_region \<noteq> PStr ''label''" and b: "group_type G_region \<noteq> PStr ''name''"
    by (simp_all add: G_region_def)
  have c: "run_groups (registry True granted) [] [G_pool] =
     ([Get_lockable_resources [(''free_only'', PBool True), (''name'', PStr ''pool-A'')],
       Thread_start ''Thread-1'' E1 pool_A],
      [G_pool\<lparr>queues := [E2]\<rparr>], Inr ())"
    by (simp add: run_group_def resources_query_def registry_def G_pool_def thread_name_def
        E1_def one)
  show ?thesis
    using bad_group_type_raises [OF a b c, of "[G_label]"] by simp
qed

text \<open>
  Claim C7. A group for which the registry returns no free resource is skipped: the only
  call is the query, the group keeps all its entries, no thread is started and no error is
  raised, and the loop goes on with the remaining groups.
\<close>

theorem no_free_resource_skips_group:
  assumes "resources_query g = Inr kwargs" and "get_lockable_resources e tr kwargs = []"
  shows "run_group e tr g = (tr @ [Get_lockable_resources kwargs], g, Inr ())
         \<and> run_groups e tr (g # gs) =
             (case run_groups e (tr @ [Get_lockable_resources kwargs]) gs of
                (tr', gs', out) \<Rightarrow> (tr', g # gs', out))"
  by (simp add: run_group_empty [OF assms])

theorem no_free_resource_skips_group_witness:
  "run_group empty_registry [] G_pool =
     ([Get_lockable_resources [(''free_only'', PBool True), (''name'', PStr ''pool-A'')]],
      G_pool, Inr ())
   \<and> run_groups empty_registry [] (G_pool # [G_label]) =
     ([Get_lockable_resources [(''free_only'', PBool True), (''name'', PStr ''pool-A'')],
       Get_lockable_resources [(''free_only'', PBool True), (''label_matches'', PStr ''gpu'')],
       Thread_start ''Thread-3'' E3 pool_A],
      [G_pool, G_label\<lparr>queues := []\<rparr>], Inr ())"
proof -
  have three: "digits 3 = ''3''" by code_simp
  have q: "resources_query G_pool = Inr [(''free_only'', PBool True), (''name'', PStr ''pool-A'')]"
    by (simp add: resources_query_def G_pool_def)
  have r: "get_lockable_resources empty_registry []
             [(''free_only'', PBool True), (''name'', PStr ''pool-A'')] = []"
    by (simp add: empty_registry_def dict_get_def)
  have rest: "run_groups empty_registry
                [Get_lockable_resources [(''free_only'', PBool True), (''name'', PStr ''pool-A'')]]
                [G_label] =
     ([Get_lockable_resources [(''free_only'', PBool True), (''name'', PStr ''pool-A'')],
       Get_lockable_resources [(''free_only'', PBool True), (''label_matches'', PStr ''gpu'')],
       Thread_start ''Thread-3'' E3 pool_A],
      [G_label\<lparr>queues := []\<rparr>], Inr ())"
    by (simp add: run_group_def resources_query_def empty_registry_def registry_def G_label_def
        thread_name_def E3_def three dict_get_def)
  show ?thesis
    using no_free_resource_skips_group [OF q r, of "[G_label]"]
    by (simp add: rest del: run_groups.simps)
qed

text \<open>
  Claim C10. When a thread named after the first entry of the group is alive, the loop body
  starts no thread: the entry is removed from the group, the first free resource is handed
  to nobody, and the dispatches of the beat are those of the remaining groups.
\<close>

theorem alive_thread_discards_pair:
  assumes "resources_query g = Inr kwargs"
    and "get_lockable_resources e tr kwargs = next_resource # resources"
    and "queues g = next_queue # group_queues"
    and "thread_name next_queue \<in> set (alive_threads_names e (tr @ [Get_lockable_resources kwargs]))"
  shows "run_group e tr g =
           (tr @ [Get_lockable_resources kwargs], g\<lparr>queues := group_queues\<rparr>, Inr ())
         \<and> dispatches (group_calls e tr g) = []
         \<and> dispatches (loop_calls e tr (g # gs)) =
             dispatches (loop_calls e (tr @ [Get_lockable_resources kwargs]) gs)"
proof -
  have rg: "run_group e tr g =
      (tr @ [Get_lockable_resources kwargs], g\<lparr>queues := group_queues\<rparr>, Inr ())"
    by (rule run_group_alive [OF assms])
  then have gc: "group_calls e tr g = [Get_lockable_resources kwargs]"
    by (simp add: group_calls_def)
  show ?thesis
    by (simp add: rg gc loop_calls_Cons dispatches_append)
qed

theorem alive_thread_discards_pair_witness:
  "run_group busy_registry [] G_pool =
     ([Get_lockable_resources [(''free_only'', PBool True), (''name'', PStr ''pool-A'')]],
      G_pool\<lparr>queues := [E2]\<rparr>, Inr ())
   \<and> dispatches (group_calls busy_registry [] G_pool) = []
   \<and> dispatches (loop_calls busy_registry [] (G_pool # [])) = []"
proof -
  have one: "digits (Suc 0) = ''1''" by code_simp
  have q: "resources_query G_pool = Inr [(''free_only'', PBool True), (''name'', PStr ''pool-A'')]"
    by (simp add: resources_query_def G_pool_def)
  have r: "get_lockable_resources busy_registry []
             [(''free_only'', PBool True), (''name'', PStr ''pool-A'')] = pool_A # []"
    by (simp add: busy_registry_def registry_def)
  have qs: "queues G_pool = E1 # [E2]"
    by (simp add: G_pool_def)
  have alive: "thread_name E1 \<in> set (alive_threads_names busy_registry
     ([] @ [Get_lockable_resources [(''free_only'', PBool True), (''name'', PStr ''pool-A'')]]))"
    by (simp add: thread_name_def E1_def one busy_registry_def)
  show ?thesis
    using alive_thread_discards_pair [OF q r qs alive, of "[]"]
    by (simp add: loop_calls_def)
qed

section \<open>One attempt per entry\<close>









end
